theory Spec2Isabelle
  imports Main "HOL-Library.Monad_Syntax"
begin

section \<open>Automatic audio extractor: \<open>extract_from_folder.py\<close>\<close>

text \<open>
  The script probes every video file of a folder with \<open>ffprobe\<close>, picks the Japanese
  audio stream from the text \<open>ffprobe\<close> writes, and has \<open>ffmpeg\<close> extract that stream to
  an MP3 file beside the video.  The external tools and the file system are parameters
  of the model; everything the script itself computes is a function below.
\<close>

subsection \<open>Strings\<close>

text \<open>
  A Python \<open>str\<close> is modelled as a \<open>string\<close>.  The probe text is \<open>str(output.stderr)\<close>,
  the \<open>repr\<close> of a \<open>bytes\<close> object, so it holds printable ASCII only.  File names are
  covered as far as their code points are below 256, the range of \<open>char\<close>.
\<close>

definition isdigit :: "char \<Rightarrow> bool" where
  \<comment> \<open>\<open>\d\<close>: the only decimal digits below code point 256 are \<open>0\<close> to \<open>9\<close>\<close>
  "isdigit c = (c \<in> set ''0123456789'')"

definition isalpha :: "char \<Rightarrow> bool" where
  \<comment> \<open>the character class \<open>[a-zA-Z]\<close>\<close>
  "isalpha c = (c \<in> set ''abcdefghijklmnopqrstuvwxyzABCDEFGHIJKLMNOPQRSTUVWXYZ'')"

definition lower_char :: "char \<Rightarrow> char" where
  \<comment> \<open>\<open>str.lower\<close> on one code point below 256: \<open>A\<close>-\<open>Z\<close> and the Latin-1 capitals
      (\<open>0xC0\<close>-\<open>0xDE\<close> without the multiplication sign \<open>0xD7\<close>) move up by 32\<close>
  "lower_char c =
     (let n = (of_char c :: nat)
      in if (65 \<le> n \<and> n \<le> 90) \<or> (192 \<le> n \<and> n \<le> 222 \<and> n \<noteq> 215)
         then char_of (n + 32) else c)"

definition lower :: "string \<Rightarrow> string" where
  "lower s = map lower_char s"

fun strip_prefix :: "string \<Rightarrow> string \<Rightarrow> string option" where
  \<comment> \<open>the rest of the text after a literal piece of the pattern, if the text starts with it\<close>
  "strip_prefix [] s = Some s"
| "strip_prefix (p # ps) [] = None"
| "strip_prefix (p # ps) (c # cs) = (if p = c then strip_prefix ps cs else None)"

subsection \<open>The pattern \<open>AUDIO_STREAM_RE\<close> and \<open>findall\<close>\<close>

datatype error = JapaneseNotFoundException

fun index_group :: "string \<Rightarrow> (string \<times> string) option" where
  \<comment> \<open>the first group \<open>(\d:\d)\<close>: the captured label and the rest of the text\<close>
  "index_group (a # c # b # rest) =
     (if isdigit a \<and> c = CHR '':'' \<and> isdigit b then Some ([a, c, b], rest) else None)"
| "index_group _ = None"

definition language_group :: "string \<Rightarrow> (string \<times> string) option" where
  \<comment> \<open>the second group \<open>([a-zA-Z]+)\<close>: the longest run of letters, at least one.  A shorter
      run is never tried again, since it would be followed by a letter and not by \<open>)\<close>.\<close>
  "language_group s =
     (let language = takeWhile isalpha s
      in if language = [] then None else Some (language, dropWhile isalpha s))"

definition match_at :: "string \<Rightarrow> ((string \<times> string) \<times> string) option" where
  \<comment> \<open>\<open>Stream #(\d:\d)\(([a-zA-Z]+)\): Audio\<close> matched at the start of the text: the two
      groups and the text after the match\<close>
  "match_at s =
     do {
       s1 \<leftarrow> strip_prefix ''Stream #'' s;
       (index, s2) \<leftarrow> index_group s1;
       s3 \<leftarrow> strip_prefix ''('' s2;
       (language, s4) \<leftarrow> language_group s3;
       rest \<leftarrow> strip_prefix ''): Audio'' s4;
       Some ((index, language), rest)
     }"

lemma strip_prefix_iff: "strip_prefix p s = Some r \<longleftrightarrow> s = p @ r"
  by (induction p s rule: strip_prefix.induct) auto

lemma index_group_iff:
  "index_group s = Some (index, rest) \<longleftrightarrow>
     (\<exists>a b. isdigit a \<and> isdigit b \<and> index = [a, CHR '':'', b] \<and> s = index @ rest)"
  by (cases s rule: index_group.cases) auto

lemma language_group_iff:
  "language_group s = Some (language, rest) \<longleftrightarrow>
     language \<noteq> [] \<and> language = takeWhile isalpha s \<and> rest = dropWhile isalpha s"
  by (auto simp: language_group_def Let_def)

lemma match_at_Some:
  assumes "match_at s = Some ((index, language), rest)"
  shows "s = ''Stream #'' @ index @ ''('' @ language @ ''): Audio'' @ rest"
    and "\<exists>a b. isdigit a \<and> isdigit b \<and> index = [a, CHR '':'', b]"
    and "language \<noteq> []" and "\<forall>c\<in>set language. isalpha c"
proof -
  from assms obtain s1 s2 s3 s4 where
    1: "strip_prefix ''Stream #'' s = Some s1" and
    2: "index_group s1 = Some (index, s2)" and
    3: "strip_prefix ''('' s2 = Some s3" and
    4: "language_group s3 = Some (language, s4)" and
    5: "strip_prefix ''): Audio'' s4 = Some rest"
    by (auto simp: match_at_def split: Option.bind_splits)
  from 4 have l: "language \<noteq> []" "language = takeWhile isalpha s3" "s4 = dropWhile isalpha s3"
    by (auto simp: language_group_iff)
  then have s3: "s3 = language @ s4"
    by simp
  from 1 have "s = ''Stream #'' @ s1" by (simp only: strip_prefix_iff)
  moreover from 2 have "s1 = index @ s2" by (auto simp: index_group_iff)
  moreover from 3 have "s2 = ''('' @ s3" by (simp only: strip_prefix_iff)
  moreover from 5 have "s4 = ''): Audio'' @ rest" by (simp only: strip_prefix_iff)
  ultimately show "s = ''Stream #'' @ index @ ''('' @ language @ ''): Audio'' @ rest"
    using s3 by simp
  from 2 show "\<exists>a b. isdigit a \<and> isdigit b \<and> index = [a, CHR '':'', b]"
    by (auto simp: index_group_iff)
  from l show "language \<noteq> []" by simp
  from l show "\<forall>c\<in>set language. isalpha c"
    by (auto dest: set_takeWhileD)
qed

lemma match_at_length: "match_at s = Some (groups, rest) \<Longrightarrow> length rest < length s"
  using match_at_Some(1) [of s "fst groups" "snd groups" rest]
  by (auto dest!: arg_cong [where f = length])

function findall :: "string \<Rightarrow> (string \<times> string) list" where
  \<comment> \<open>\<open>AUDIO_STREAM_RE.findall\<close>: scan from the left; a match gives its pair of groups and the
      scan goes on after it (matches do not overlap), otherwise the scan moves one character\<close>
  "findall [] = []"
| "findall (c # cs) =
     (case match_at (c # cs) of
        Some (groups, rest) \<Rightarrow> groups # findall rest
      | None \<Rightarrow> findall cs)"
  by pat_completeness auto
termination
  by (relation "measure length") (auto dest: match_at_length)

subsection \<open>Selecting the Japanese track\<close>

fun find_japanese :: "(string \<times> string) list \<Rightarrow> error + string" where
  \<comment> \<open>the \<open>for index, language in streams\<close> loop and the \<open>raise\<close> after it\<close>
  "find_japanese [] = Inl JapaneseNotFoundException"
| "find_japanese ((index, language) # streams) =
     (if lower language = ''jpn'' then Inr index else find_japanese streams)"

definition select_japanese_track :: "string \<Rightarrow> error + string" where
  \<comment> \<open>lines 60 to 74 of \<open>get_japanese_audio_track\<close>, on the text \<open>str(output.stderr)\<close>\<close>
  "select_japanese_track probe_text =
     (let streams = findall probe_text
      in if length streams = 0 then Inl JapaneseNotFoundException
         else if length streams = 1 then Inr (fst (streams ! 0))
         else find_japanese streams)"

subsection \<open>Paths: \<open>pathlib\<close>\<close>

text \<open>
  \<open>pathlib\<close> is modelled in its POSIX flavour (Python 3.12): a path is its root and the
  list of its components, the separator is \<open>/\<close> and there is no drive.
\<close>

record path =
  root :: string
  tail :: "string list"

fun str_split :: "char \<Rightarrow> string \<Rightarrow> string list" where
  \<comment> \<open>\<open>s.split(sep)\<close> for a separator of one character; the result is never empty\<close>
  "str_split sep [] = [[]]"
| "str_split sep (c # cs) =
     (if c = sep then [] # str_split sep cs
      else (case str_split sep cs of [] \<Rightarrow> [[c]] | w # ws \<Rightarrow> (c # w) # ws))"

fun join :: "string \<Rightarrow> string list \<Rightarrow> string" where
  \<comment> \<open>\<open>sep.join(parts)\<close>\<close>
  "join sep [] = []"
| "join sep [x] = x"
| "join sep (x # y # ys) = x @ sep @ join sep (y # ys)"

definition splitroot :: "string \<Rightarrow> string \<times> string" where
  \<comment> \<open>\<open>posixpath.splitroot\<close> without the drive, which is always empty: one leading slash or
      three and more give the root \<open>/\<close>, exactly two give \<open>//\<close>\<close>
  "splitroot p =
     (if take 1 p \<noteq> ''/'' then ([], p)
      else if take 1 (drop 1 p) \<noteq> ''/'' \<or> take 1 (drop 2 p) = ''/'' then (''/'', drop 1 p)
      else (take 2 p, drop 2 p))"

definition Path :: "string \<Rightarrow> path" where
  \<comment> \<open>\<open>Path(s)\<close>: empty components and \<open>.\<close> are dropped, \<open>..\<close> is kept\<close>
  "Path s =
     (let (r, rel) = splitroot s
      in \<lparr>root = r, tail = filter (\<lambda>x. x \<noteq> [] \<and> x \<noteq> ''.'') (str_split CHR ''/'' rel)\<rparr>)"

definition str :: "path \<Rightarrow> string" where
  \<comment> \<open>\<open>str(p)\<close>\<close>
  "str p = (let s = root p @ join ''/'' (tail p) in if s = [] then ''.'' else s)"

definition joinpath :: "path \<Rightarrow> string \<Rightarrow> path" where
  \<comment> \<open>\<open>p / key\<close> for a string \<open>key\<close>: an absolute \<open>key\<close> replaces \<open>p\<close>, a relative one adds its
      components\<close>
  "joinpath p key =
     (let k = Path key
      in if root k \<noteq> [] then k else \<lparr>root = root p, tail = tail p @ tail k\<rparr>)"

definition name :: "path \<Rightarrow> string" where
  "name p = (if tail p = [] then [] else last (tail p))"

definition parent :: "path \<Rightarrow> path" where
  "parent p = (if tail p = [] then p else \<lparr>root = root p, tail = butlast (tail p)\<rparr>)"

fun rfind_from :: "string \<Rightarrow> char \<Rightarrow> int \<Rightarrow> int \<Rightarrow> int" where
  \<comment> \<open>scan to the right from index \<open>i\<close>, keeping the last index where \<open>c\<close> was seen\<close>
  "rfind_from [] c i found = found"
| "rfind_from (x # xs) c i found = rfind_from xs c (i + 1) (if x = c then i else found)"

definition rfind :: "string \<Rightarrow> char \<Rightarrow> int" where
  \<comment> \<open>\<open>s.rfind(c)\<close>: the highest index of \<open>c\<close> in \<open>s\<close>, or \<open>-1\<close>\<close>
  "rfind s c = rfind_from s c 0 (- 1)"

definition suffix :: "path \<Rightarrow> string" where
  "suffix p =
     (let i = rfind (name p) CHR ''.''
      in if 0 < i \<and> i < int (length (name p)) - 1 then drop (nat i) (name p) else [])"

definition stem :: "path \<Rightarrow> string" where
  "stem p =
     (let i = rfind (name p) CHR ''.''
      in if 0 < i \<and> i < int (length (name p)) - 1 then take (nat i) (name p) else name p)"

definition wf_path :: "path \<Rightarrow> bool" where
  \<comment> \<open>the paths \<open>pathlib\<close> builds: every \<open>Path s\<close> is one (lemma \<open>wf_path_Path\<close>)\<close>
  "wf_path p \<longleftrightarrow>
     root p \<in> {[], ''/'', ''//''} \<and>
     (\<forall>x \<in> set (tail p). x \<noteq> [] \<and> x \<noteq> ''.'' \<and> CHR ''/'' \<notin> set x)"

subsection \<open>The per-file task \<open>extract_audio\<close>\<close>

text \<open>
  The world a task acts on: the lines it has printed and the command lines it has run
  with \<open>subprocess.run\<close>.  What a command writes to its error stream is not computed by
  the script; \<open>run\<close> gives, for a command line, the text \<open>str(output.stderr)\<close>.
\<close>

record world =
  stdout :: "string list"
  processes :: "string list"

definition quoted :: "string \<Rightarrow> string" where
  \<comment> \<open>a text between two double quotes, as the f-strings of the script write it\<close>
  "quoted s = [CHR 0x22] @ s @ [CHR 0x22]"

definition ffprobe_cmd :: "path \<Rightarrow> string" where
  \<comment> \<open>line 55\<close>
  "ffprobe_cmd video_file = ''ffprobe '' @ quoted (str video_file)"

definition get_japanese_audio_track ::
  "(string \<Rightarrow> string) \<Rightarrow> path \<Rightarrow> world \<Rightarrow> (error + string) \<times> world" where
  "get_japanese_audio_track run video_file w =
     (let cmd = ffprobe_cmd video_file;
          output_stderr = run cmd
      in (select_japanese_track output_stderr, w\<lparr>processes := processes w @ [cmd]\<rparr>))"

definition output_filename :: "path \<Rightarrow> path" where
  \<comment> \<open>line 90: \<open>video_file.parent / (video_file.stem + ".mp3")\<close>\<close>
  "output_filename video_file = joinpath (parent video_file) (stem video_file @ ''.mp3'')"

definition ffmpeg_cmd :: "path \<Rightarrow> string \<Rightarrow> string" where
  \<comment> \<open>line 92\<close>
  "ffmpeg_cmd video_file track_index =
     ''ffmpeg -i '' @ quoted (str video_file) @ '' -q:a 0 -map '' @ track_index @ '' '' @
     quoted (str (output_filename video_file))"

definition extract_audio ::
  "(string \<Rightarrow> string) \<Rightarrow> path \<Rightarrow> world \<Rightarrow> (error + unit) \<times> world" where
  "extract_audio run video_file w =
     (case get_japanese_audio_track run video_file w of
        (Inl JapaneseNotFoundException, w1) \<Rightarrow>
          (Inr (), w1\<lparr>stdout := stdout w1 @ [''No Japanese audio track found.'']\<rparr>)
      | (Inr track_index, w1) \<Rightarrow>
          (Inr (),
           w1\<lparr>stdout := stdout w1 @ [''Extracting audio from '' @ str video_file @ [CHR 0x0A]],
              processes := processes w1 @ [ffmpeg_cmd video_file track_index]\<rparr>))"

subsection \<open>The file filter of \<open>main\<close>\<close>

record filesystem =
  iterdir :: "path \<Rightarrow> path list"
  is_file :: "path \<Rightarrow> bool"

definition VIDEO_EXTS :: "string list" where
  "VIDEO_EXTS = [''.mkv'', ''.mp4'']"

definition video_files :: "filesystem \<Rightarrow> path \<Rightarrow> path list" where
  \<comment> \<open>lines 102 to 106, the list the tasks are started from\<close>
  "video_files fs folder_to_convert =
     [video_file \<leftarrow> iterdir fs folder_to_convert.
        is_file fs video_file \<and> lower (suffix video_file) \<in> set VIDEO_EXTS]"

subsection \<open>Example inputs\<close>

text \<open>
  Probe texts in the shape \<open>ffprobe\<close> prints them, and a small world and file system, used
  to run the definitions on concrete inputs.
\<close>

definition probe_none :: string where
  "probe_none =
     ''Input #0, matroska,webm  Stream #0:0: Video: h264 (High)  Stream #0:1(eng): Subtitle: subrip''"

definition probe_single :: string where
  "probe_single = ''  Stream #0:0: Video: h264  Stream #0:1(eng): Audio: aac (LC), 48000 Hz''"

definition probe_untagged :: string where
  "probe_untagged = ''  Stream #0:0: Video: h264  Stream #0:1: Audio: aac (LC), 48000 Hz''"

definition probe_two_eng :: string where
  "probe_two_eng =
     ''  Stream #0:0: Video: h264  Stream #0:1(eng): Audio: aac (LC)  Stream #0:2(eng): Audio: ac3''"


definition probe_three :: string where
  "probe_three =
     ''  Stream #0:0: Video: h264 (High), yuv420p  Stream #0:1(eng): Audio: aac (LC), 48000 Hz'' @
     ''  Stream #0:2(JPN): Audio: aac (LC), 48000 Hz, stereo  Stream #0:3(ger): Audio: ac3'' @
     ''  Stream #0:4(eng): Subtitle: subrip (default)''"

definition probe_mixed :: string where
  "probe_mixed =
     ''  Stream #0:1: Audio: aac  Stream #0:2(eng): Audio: aac  Stream #0:3(Jpn): Audio: ac3''"

definition probe_untagged_eng :: string where
  "probe_untagged_eng = ''  Stream #0:1: Audio: aac  Stream #0:2(eng): Audio: ac3''"

definition probe_eng_untagged :: string where
  "probe_eng_untagged =
     ''  Stream #0:0: Video: h264  Stream #0:1(eng): Audio: aac (LC)  Stream #0:2: Audio: ac3''"

definition world0 :: world where
  "world0 = \<lparr>stdout = [], processes = []\<rparr>"

definition run_example :: "string \<Rightarrow> string" where
  "run_example cmd = (if cmd = ffprobe_cmd (Path ''videos/ep1.mkv'') then probe_three else [])"

definition fs_example :: filesystem where
  "fs_example =
     \<lparr>iterdir = (\<lambda>d.
        if d = Path ''videos''
        then map (joinpath d)
          [''ep1.MKV'', ''ep2.mp4'', ''notes.txt'', ''extras.mkv'', ''ep4.mp4.part'', ''.mkv'']
        else if d = Path ''videos/extras.mkv'' then [joinpath d ''ep3.mkv'']
        else []),
      is_file = (\<lambda>p. p \<noteq> Path ''videos'' \<and> p \<noteq> Path ''videos/extras.mkv'')\<rparr>"

section \<open>Properties of the stream selector\<close>

subsection \<open>The loop over the streams\<close>


lemma find_japanese_Inl:
  "find_japanese streams = Inl JapaneseNotFoundException \<longleftrightarrow>
     (\<forall>d \<in> set streams. lower (snd d) \<noteq> ''jpn'')"
  by (induction streams) (auto split: if_splits)

lemma find_japanese_Inr:
  "find_japanese streams = Inr index \<Longrightarrow>
     \<exists>language. (index, language) \<in> set streams \<and> lower language = ''jpn''"
  by (induction streams) (auto split: if_splits)

subsection \<open>What \<open>findall\<close> returns\<close>

lemma findall_occurs:
  "(index, language) \<in> set (findall s) \<Longrightarrow>
     \<exists>pre post. s = pre @ ''Stream #'' @ index @ ''('' @ language @ ''): Audio'' @ post"
proof (induction s rule: findall.induct)
  case 1
  then show ?case by simp
next
  case (2 c cs)
  show ?case
  proof (cases "match_at (c # cs)")
    case None
    with "2.prems" have "(index, language) \<in> set (findall cs)"
      by simp
    with "2.IH"(1) [OF None] obtain pre post where
      "cs = pre @ ''Stream #'' @ index @ ''('' @ language @ ''): Audio'' @ post"
      by blast
    then have "c # cs = (c # pre) @ ''Stream #'' @ index @ ''('' @ language @ ''): Audio'' @ post"
      by simp
    then show ?thesis by blast
  next
    case (Some m)
    obtain i l rest where m: "m = ((i, l), rest)"
      by (cases m) auto
    from Some m have here: "c # cs = ''Stream #'' @ i @ ''('' @ l @ ''): Audio'' @ rest"
      by (simp only: match_at_Some(1))
    from "2.prems" Some m
    have "(index, language) = (i, l) \<or> (index, language) \<in> set (findall rest)"
      by simp
    then show ?thesis
    proof
      assume "(index, language) = (i, l)"
      with here have "c # cs = [] @ ''Stream #'' @ index @ ''('' @ language @ ''): Audio'' @ rest"
        by simp
      then show ?thesis by blast
    next
      assume "(index, language) \<in> set (findall rest)"
      with "2.IH"(2) [OF Some, of "(i, l)" rest] m obtain pre post where
        "rest = pre @ ''Stream #'' @ index @ ''('' @ language @ ''): Audio'' @ post"
        by blast
      with here have "c # cs = (''Stream #'' @ i @ ''('' @ l @ ''): Audio'' @ pre) @
          ''Stream #'' @ index @ ''('' @ language @ ''): Audio'' @ post"
        by simp
      then show ?thesis by blast
    qed
  qed
qed

lemma findall_tagged:
  "(index, language) \<in> set (findall s) \<Longrightarrow> language \<noteq> [] \<and> (\<forall>c \<in> set language. isalpha c)"
proof (induction s rule: findall.induct)
  case 1
  then show ?case by simp
next
  case (2 c cs)
  show ?case
  proof (cases "match_at (c # cs)")
    case None
    with "2.prems" "2.IH"(1) show ?thesis
      by simp
  next
    case (Some m)
    obtain i l rest where m: "m = ((i, l), rest)"
      by (cases m) auto
    from "2.prems" Some m
    have "(index, language) = (i, l) \<or> (index, language) \<in> set (findall rest)"
      by simp
    then show ?thesis
    proof
      assume "(index, language) = (i, l)"
      with Some m show ?thesis
        using match_at_Some(3,4) [of "c # cs" index language rest] by simp
    next
      assume "(index, language) \<in> set (findall rest)"
      with "2.IH"(2) [OF Some, of "(i, l)" rest] m show ?thesis
        by simp
    qed
  qed
qed

lemma match_at_complete:
  assumes "isdigit a" "isdigit b" "language \<noteq> []" "\<forall>c \<in> set language. isalpha c"
  shows "match_at (''Stream #'' @ [a, CHR '':'', b] @ ''('' @ language @ ''): Audio'' @ rest) =
           Some (([a, CHR '':'', b], language), rest)"
proof -
  have "\<not> isalpha CHR '')''"
    by (simp add: isalpha_def)
  with assms(4) have "takeWhile isalpha (language @ ''): Audio'' @ rest) = language"
    and "dropWhile isalpha (language @ ''): Audio'' @ rest) = ''): Audio'' @ rest"
    by (simp_all add: takeWhile_append2 dropWhile_append2)
  with assms(1-3) show ?thesis
    by (simp add: match_at_def language_group_def)
qed

lemma match_at_starts: "match_at (c # cs) = Some m \<Longrightarrow> c = CHR ''S''"
  by (auto simp: match_at_def split: Option.bind_splits if_splits)

lemma findall_skip: "CHR ''S'' \<notin> set junk \<Longrightarrow> findall (junk @ s) = findall s"
proof (induction junk)
  case Nil
  then show ?case by simp
next
  case (Cons c junk)
  then have "match_at (c # junk @ s) = None"
    using match_at_starts [of c "junk @ s"] by (cases "match_at (c # junk @ s)") auto
  with Cons show ?case
    by simp
qed

lemma isdigit_not_S: "isdigit a \<Longrightarrow> a \<noteq> CHR ''S''"
  by (auto simp: isdigit_def)

lemma findall_tagged_line:
  assumes "isdigit a" "isdigit b" "language \<noteq> []" "\<forall>c \<in> set language. isalpha c"
  shows "findall (''Stream #'' @ [a, CHR '':'', b] @ ''('' @ language @ ''): Audio'' @ rest) =
           ([a, CHR '':'', b], language) # findall rest"
  using match_at_complete [OF assms, of rest] by simp

lemma findall_untagged_line:
  assumes "isdigit a" "isdigit b"
  shows "findall (''Stream #'' @ [a, CHR '':'', b] @ '': Audio'' @ rest) = findall rest"
proof -
  have "match_at (''Stream #'' @ [a, CHR '':'', b] @ '': Audio'' @ rest) = None"
    by (simp add: match_at_def)
  then have "findall (''Stream #'' @ [a, CHR '':'', b] @ '': Audio'' @ rest) =
      findall ((''tream #'' @ [a, CHR '':'', b] @ '': Audio'') @ rest)"
    by simp
  also have "\<dots> = findall rest"
    using assms by (intro findall_skip) (auto dest: isdigit_not_S)
  finally show ?thesis .
qed

subsection \<open>Selection\<close>

text \<open>
  The parsed descriptors of a probe text are the pairs \<open>findall probe_text\<close>, in the order
  of the text: the audio streams that carry a language tag.  An audio stream without a
  language tag is a stream of the file, but \<open>findall\<close> returns no pair for it.
\<close>



text \<open>
  C2, as the claim states it, fails in both directions once an audio stream has no
  language tag.  A probe text with exactly one audio stream, untagged, is neither of the
  two failing cases of the claim, and the selection raises \<open>JapaneseNotFoundException\<close>.
  A probe text with two audio streams, one untagged and one tagged \<open>eng\<close>, has two streams
  of which none is tagged \<open>jpn\<close>, and the selection returns \<open>0:2\<close>, the label of the \<open>eng\<close>
  stream, instead of failing.
\<close>

theorem select_fails_iff_counterexample:
  "select_japanese_track probe_untagged = Inl JapaneseNotFoundException \<and>
   findall probe_untagged_eng = [(''0:2'', ''eng'')] \<and>
   select_japanese_track probe_untagged_eng = Inr ''0:2''"
  by code_simp

text \<open>
  C2, amended: the selection fails with \<open>JapaneseNotFoundException\<close> exactly when the
  probe text has no parsed descriptor, or has two or more of which none is tagged \<open>jpn\<close>
  (compared after \<open>lower\<close>); in every other case it returns the index label of one of the
  parsed descriptors.  Only streams that carry a language tag are counted: a line
  \<open>Stream #a:b: Audio\<close> adds nothing to what \<open>findall\<close> returns.
\<close>

theorem select_fails_iff:
  "(select_japanese_track probe_text = Inl JapaneseNotFoundException \<longleftrightarrow>
      findall probe_text = [] \<or>
      (2 \<le> length (findall probe_text) \<and>
       (\<forall>d \<in> set (findall probe_text). lower (snd d) \<noteq> ''jpn''))) \<and>
   (select_japanese_track probe_text \<noteq> Inl JapaneseNotFoundException \<longrightarrow>
      (\<exists>index language. (index, language) \<in> set (findall probe_text) \<and>
         select_japanese_track probe_text = Inr index)) \<and>
   (isdigit a \<and> isdigit b \<longrightarrow>
      findall (''Stream #'' @ [a, CHR '':'', b] @ '': Audio'' @ rest) = findall rest)"
proof -
  have counted: "isdigit a \<and> isdigit b \<longrightarrow>
      findall (''Stream #'' @ [a, CHR '':'', b] @ '': Audio'' @ rest) = findall rest"
    using findall_untagged_line by blast
  have "(select_japanese_track probe_text = Inl JapaneseNotFoundException \<longleftrightarrow>
      findall probe_text = [] \<or>
      (2 \<le> length (findall probe_text) \<and>
       (\<forall>d \<in> set (findall probe_text). lower (snd d) \<noteq> ''jpn''))) \<and>
   (select_japanese_track probe_text \<noteq> Inl JapaneseNotFoundException \<longrightarrow>
      (\<exists>index language. (index, language) \<in> set (findall probe_text) \<and>
         select_japanese_track probe_text = Inr index))"
  proof (cases "findall probe_text")
    case Nil
    then show ?thesis
      by (simp add: select_japanese_track_def)
  next
    case (Cons d ds)
    show ?thesis
    proof (cases ds)
      case Nil
      with Cons show ?thesis
        by (cases d) (simp add: select_japanese_track_def)
    next
      case (Cons d' ds')
      with \<open>findall probe_text = d # ds\<close>
      have sel: "select_japanese_track probe_text = find_japanese (findall probe_text)"
        and len: "2 \<le> length (findall probe_text)"
        by (simp_all add: select_japanese_track_def)
      show ?thesis
      proof (cases "find_japanese (findall probe_text)")
        case (Inl e)
        with sel len show ?thesis
          using find_japanese_Inl [of "findall probe_text"] by (cases e) auto
      next
        case (Inr index)
        with sel len show ?thesis
          using find_japanese_Inl [of "findall probe_text"]
            find_japanese_Inr [of "findall probe_text" index]
          by auto
      qed
    qed
  qed
  with counted show ?thesis
    by blast
qed

theorem select_fails_iff_witness:
  "select_japanese_track probe_none = Inl JapaneseNotFoundException \<and>
   select_japanese_track probe_two_eng = Inl JapaneseNotFoundException \<and>
   (\<exists>index language. (index, language) \<in> set (findall probe_single) \<and>
      select_japanese_track probe_single = Inr index) \<and>
   select_japanese_track probe_three \<noteq> Inl JapaneseNotFoundException \<and>
   findall (''Stream #0:1: Audio'' @ '': aac  Stream #0:2(eng): Audio: ac3'') =
     findall '': aac  Stream #0:2(eng): Audio: ac3''"
proof -
  have "findall probe_none = []"
    by code_simp
  with select_fails_iff [of probe_none]
  have 1: "select_japanese_track probe_none = Inl JapaneseNotFoundException"
    by blast
  have "2 \<le> length (findall probe_two_eng) \<and>
      (\<forall>d \<in> set (findall probe_two_eng). lower (snd d) \<noteq> ''jpn'')"
    by code_simp
  with select_fails_iff [of probe_two_eng]
  have 2: "select_japanese_track probe_two_eng = Inl JapaneseNotFoundException"
    by blast
  have "\<not> (findall probe_single = [] \<or> 2 \<le> length (findall probe_single) \<and>
      (\<forall>d \<in> set (findall probe_single). lower (snd d) \<noteq> ''jpn''))"
    by code_simp
  with select_fails_iff [of probe_single]
  have 3: "\<exists>index language. (index, language) \<in> set (findall probe_single) \<and>
      select_japanese_track probe_single = Inr index"
    by blast
  have "\<not> (findall probe_three = [] \<or> 2 \<le> length (findall probe_three) \<and>
      (\<forall>d \<in> set (findall probe_three). lower (snd d) \<noteq> ''jpn''))"
    by code_simp
  with select_fails_iff [of probe_three]
  have 4: "select_japanese_track probe_three \<noteq> Inl JapaneseNotFoundException"
    by blast
  have d: "isdigit CHR ''0'' \<and> isdigit CHR ''1''"
    by code_simp
  with select_fails_iff
    [of probe_none "CHR ''0''" "CHR ''1''" "'': aac  Stream #0:2(eng): Audio: ac3''"]
  have 5: "findall (''Stream #0:1: Audio'' @ '': aac  Stream #0:2(eng): Audio: ac3'') =
      findall '': aac  Stream #0:2(eng): Audio: ac3''"
    by simp
  from 1 2 3 4 5 show ?thesis
    by blast
qed

text \<open>
  C3, as the claim states it, fails: a probe text whose only audio stream has no language
  tag (\<open>Stream #0:1: Audio\<close>) gives no descriptor at all, since the pattern needs the tag
  in parentheses, and the selection raises \<open>JapaneseNotFoundException\<close> instead of
  returning \<open>0:1\<close>.
\<close>

theorem select_single_untagged_counterexample:
  "findall probe_untagged = [] \<and>
   select_japanese_track probe_untagged = Inl JapaneseNotFoundException \<and>
   select_japanese_track probe_untagged \<noteq> Inr ''0:1''"
  by code_simp

text \<open>
  C3, amended: when the probe text has exactly one audio stream descriptor, whatever the
  language tag it carries, the selection returns its index label; a stream without a
  language tag is not a descriptor.
\<close>

theorem select_single_stream:
  "findall probe_text = [(index, language)] \<Longrightarrow> select_japanese_track probe_text = Inr index"
  by (simp add: select_japanese_track_def)

theorem select_single_stream_witness:
  "findall probe_single = [(''0:1'', ''eng'')] \<and> select_japanese_track probe_single = Inr ''0:1''"
proof -
  have f: "findall probe_single = [(''0:1'', ''eng'')]"
    by code_simp
  from select_single_stream [OF f] f show ?thesis
    by blast
qed



text \<open>
  C5, as the claim states it, fails: a probe text with two audio streams, the first
  tagged \<open>eng\<close> and the second without a language tag, has no \<open>jpn\<close> tag anywhere, and the
  selection returns \<open>0:1\<close>, the label of the \<open>eng\<close> stream.  The untagged stream is not
  counted, so the text is handled as a single stream, and a stream is selected without an
  explicit \<open>jpn\<close> tag although the file has two audio streams.
\<close>

theorem untagged_never_selected_counterexample:
  "findall probe_eng_untagged = [(''0:1'', ''eng'')] \<and>
   lower ''eng'' \<noteq> ''jpn'' \<and>
   select_japanese_track probe_eng_untagged = Inr ''0:1''"
  by code_simp

text \<open>
  C5, amended: a stream without a language tag is parsed as absent and never selected.  A
  line \<open>Stream #a:b: Audio\<close> adds nothing to what \<open>findall\<close> returns for the text after it,
  every parsed descriptor carries a tag that is not empty, and a returned index label is
  always the label of a parsed descriptor.  Streams without a tag are not counted: when
  the probe text has at least two parsed descriptors, the returned label is the label of
  one tagged \<open>jpn\<close>, and when none of them is tagged \<open>jpn\<close> the selection fails instead of
  returning another stream; a text with exactly one parsed descriptor returns its label,
  whatever its tag and however many untagged streams stand beside it.
\<close>

theorem untagged_never_selected:
  "(isdigit a \<and> isdigit b \<longrightarrow>
      findall (''Stream #'' @ [a, CHR '':'', b] @ '': Audio'' @ rest) = findall rest) \<and>
   (\<forall>d \<in> set (findall probe_text). snd d \<noteq> []) \<and>
   (\<forall>index. select_japanese_track probe_text = Inr index \<longrightarrow>
      (\<exists>language. (index, language) \<in> set (findall probe_text) \<and> language \<noteq> [] \<and>
         (2 \<le> length (findall probe_text) \<longrightarrow> lower language = ''jpn''))) \<and>
   (2 \<le> length (findall probe_text) \<and>
    (\<forall>d \<in> set (findall probe_text). lower (snd d) \<noteq> ''jpn'') \<longrightarrow>
      select_japanese_track probe_text = Inl JapaneseNotFoundException) \<and>
   (length (findall probe_text) = 1 \<longrightarrow>
      select_japanese_track probe_text = Inr (fst (hd (findall probe_text))))"
proof -
  have absent: "isdigit a \<and> isdigit b \<longrightarrow>
      findall (''Stream #'' @ [a, CHR '':'', b] @ '': Audio'' @ rest) = findall rest"
    using findall_untagged_line by blast
  have tagged: "\<forall>d \<in> set (findall probe_text). snd d \<noteq> []"
    using findall_tagged by fastforce
  have sel: "select_japanese_track probe_text = find_japanese (findall probe_text)"
    if "2 \<le> length (findall probe_text)"
    using that by (auto simp: select_japanese_track_def Let_def)
  have single: "select_japanese_track probe_text = Inr (fst (hd (findall probe_text)))"
    if "length (findall probe_text) = 1"
    using that by (cases "findall probe_text") (auto simp: select_japanese_track_def)
  have chosen: "\<exists>language. (index, language) \<in> set (findall probe_text) \<and> language \<noteq> [] \<and>
      (2 \<le> length (findall probe_text) \<longrightarrow> lower language = ''jpn'')"
    if s: "select_japanese_track probe_text = Inr index" for index
  proof (cases "2 \<le> length (findall probe_text)")
    case True
    with s sel obtain language where
      "(index, language) \<in> set (findall probe_text)" "lower language = ''jpn''"
      by (auto dest: find_japanese_Inr)
    then show ?thesis
      using findall_tagged by blast
  next
    case False
    from s have "findall probe_text \<noteq> []"
      by (auto simp: select_japanese_track_def)
    with False have one: "length (findall probe_text) = 1"
      by (cases "findall probe_text") (auto simp: not_le)
    then obtain d where d: "findall probe_text = [d]"
      by (cases "findall probe_text") auto
    with s single [OF one] have "(index, snd d) \<in> set (findall probe_text)"
      by (cases d) simp
    with False show ?thesis
      using findall_tagged by blast
  qed
  have none: "select_japanese_track probe_text = Inl JapaneseNotFoundException"
    if "2 \<le> length (findall probe_text) \<and>
      (\<forall>d \<in> set (findall probe_text). lower (snd d) \<noteq> ''jpn'')"
    using that sel by (simp add: find_japanese_Inl)
  from absent tagged chosen none single show ?thesis
    by blast
qed

theorem untagged_never_selected_witness:
  "findall (''Stream #0:1: Audio'' @ '': aac  Stream #0:2(eng): Audio: aac'') =
     findall '': aac  Stream #0:2(eng): Audio: aac'' \<and>
   findall probe_mixed = [(''0:2'', ''eng''), (''0:3'', ''Jpn'')] \<and>
   select_japanese_track probe_mixed = Inr ''0:3'' \<and>
   (\<exists>language. (''0:3'', language) \<in> set (findall probe_mixed) \<and> language \<noteq> [] \<and>
      lower language = ''jpn'') \<and>
   select_japanese_track probe_two_eng = Inl JapaneseNotFoundException \<and>
   select_japanese_track probe_eng_untagged = Inr ''0:1''"
proof -
  have l: "2 \<le> length (findall probe_mixed)"
    by code_simp
  have s: "select_japanese_track probe_mixed = Inr ''0:3''"
    by code_simp
  have f: "findall probe_mixed = [(''0:2'', ''eng''), (''0:3'', ''Jpn'')]"
    by code_simp
  have d: "isdigit CHR ''0'' \<and> isdigit CHR ''1''"
    by code_simp
  have l': "2 \<le> length (findall probe_two_eng) \<and>
      (\<forall>d \<in> set (findall probe_two_eng). lower (snd d) \<noteq> ''jpn'')"
    by code_simp
  have o: "length (findall probe_eng_untagged) = 1"
    by code_simp
  have h: "fst (hd (findall probe_eng_untagged)) = ''0:1''"
    by code_simp
  from untagged_never_selected
    [of "CHR ''0''" "CHR ''1''" "'': aac  Stream #0:2(eng): Audio: aac''" probe_mixed] s d l
  have "findall (''Stream #0:1: Audio'' @ '': aac  Stream #0:2(eng): Audio: aac'') =
      findall '': aac  Stream #0:2(eng): Audio: aac''"
    and "\<exists>language. (''0:3'', language) \<in> set (findall probe_mixed) \<and> language \<noteq> [] \<and>
      lower language = ''jpn''"
    by simp_all
  moreover from untagged_never_selected [of _ _ _ probe_two_eng] l'
  have "select_japanese_track probe_two_eng = Inl JapaneseNotFoundException"
    by blast
  moreover from untagged_never_selected [of _ _ _ probe_eng_untagged] o h
  have "select_japanese_track probe_eng_untagged = Inr ''0:1''"
    by simp
  ultimately show ?thesis
    using s f by blast
qed

text \<open>
  C9: when the selection succeeds, the returned index label is the label of a parsed
  descriptor, and the text \<open>Stream #<label>(<tag>): Audio\<close> with that label stands in
  the probe text.
\<close>

theorem selected_label_occurs:
  assumes "select_japanese_track probe_text = Inr index"
  shows "\<exists>language pre post.
           (index, language) \<in> set (findall probe_text) \<and>
           probe_text = pre @ ''Stream #'' @ index @ ''('' @ language @ ''): Audio'' @ post"
proof -
  have "\<exists>language. (index, language) \<in> set (findall probe_text)"
  proof (cases "length (findall probe_text) = 1")
    case True
    then obtain d where "findall probe_text = [d]"
      by (cases "findall probe_text") auto
    with assms show ?thesis
      by (cases d) (simp add: select_japanese_track_def)
  next
    case False
    with assms have "find_japanese (findall probe_text) = Inr index"
      by (simp add: select_japanese_track_def Let_def split: if_splits)
    then show ?thesis
      by (blast dest: find_japanese_Inr)
  qed
  then obtain language where "(index, language) \<in> set (findall probe_text)" ..
  then show ?thesis
    using findall_occurs by blast
qed

theorem selected_label_occurs_witness:
  "select_japanese_track probe_three = Inr ''0:2'' \<and>
   (\<exists>language pre post.
      (''0:2'', language) \<in> set (findall probe_three) \<and>
      probe_three = pre @ ''Stream #'' @ ''0:2'' @ ''('' @ language @ ''): Audio'' @ post)"
proof -
  have s: "select_japanese_track probe_three = Inr ''0:2''"
    by code_simp
  from selected_label_occurs [OF s] s show ?thesis
    by blast
qed

section \<open>Properties of paths and of the per-file task\<close>

subsection \<open>Splitting and joining\<close>

lemma str_split_nonempty: "str_split sep s \<noteq> []"
  by (induction s) (auto split: list.splits)

lemma str_split_no_sep: "x \<in> set (str_split sep s) \<Longrightarrow> sep \<notin> set x"
proof (induction s arbitrary: x)
  case Nil
  then show ?case by simp
next
  case (Cons c cs)
  obtain w ws where w: "str_split sep cs = w # ws"
    using str_split_nonempty [of sep cs] by (cases "str_split sep cs") auto
  with Cons show ?case
    by (auto split: if_splits)
qed

lemma str_split_single: "sep \<notin> set s \<Longrightarrow> str_split sep s = [s]"
  by (induction s) auto

lemma splitroot_root: "fst (splitroot s) \<in> {[], ''/'', ''//''}"
proof (cases s)
  case Nil
  then show ?thesis by (simp add: splitroot_def)
next
  case (Cons a s')
  then show ?thesis
    by (cases s') (auto simp: splitroot_def)
qed

lemma wf_path_Path: "wf_path (Path s)"
  using splitroot_root [of s]
  by (auto simp: wf_path_def Path_def split: prod.splits dest: str_split_no_sep)

lemma Path_single:
  assumes "CHR ''/'' \<notin> set key" "key \<noteq> []" "key \<noteq> ''.''"
  shows "Path key = \<lparr>root = [], tail = [key]\<rparr>"
proof -
  from assms obtain c cs where "key = c # cs" "c \<noteq> CHR ''/''"
    by (cases key) auto
  then have "splitroot key = ([], key)"
    by (simp add: splitroot_def)
  with assms show ?thesis
    by (simp add: Path_def str_split_single)
qed

lemma joinpath_single:
  assumes "CHR ''/'' \<notin> set key" "key \<noteq> []" "key \<noteq> ''.''"
  shows "joinpath p key = \<lparr>root = root p, tail = tail p @ [key]\<rparr>"
  by (simp add: joinpath_def Path_single [OF assms])

lemma name_no_sep: "wf_path p \<Longrightarrow> CHR ''/'' \<notin> set (name p)"
  by (auto simp: wf_path_def name_def)

lemma stem_no_sep: "wf_path p \<Longrightarrow> CHR ''/'' \<notin> set (stem p)"
  using name_no_sep [of p] by (auto simp: stem_def Let_def dest: in_set_takeD)

subsection \<open>The output path\<close>

lemma output_filename_parts:
  assumes "wf_path video_file"
  shows "output_filename video_file =
           \<lparr>root = root video_file, tail = butlast (tail video_file) @ [stem video_file @ ''.mp3'']\<rparr>"
proof -
  have "joinpath (parent video_file) (stem video_file @ ''.mp3'') =
      \<lparr>root = root (parent video_file), tail = tail (parent video_file) @ [stem video_file @ ''.mp3'']\<rparr>"
    using stem_no_sep [OF assms] by (intro joinpath_single) auto
  then show ?thesis
    by (simp add: output_filename_def parent_def)
qed

lemma output_filename_name:
  "wf_path video_file \<Longrightarrow> name (output_filename video_file) = stem video_file @ ''.mp3''"
  by (simp add: output_filename_parts name_def)

lemma output_filename_parent:
  "wf_path video_file \<Longrightarrow> parent (output_filename video_file) = parent video_file"
  by (simp add: output_filename_parts parent_def)

text \<open>
  C6: the output path is computed from the input path alone.  For every path its parent
  is the parent of the input path and its name is the stem of the input path followed by
  \<open>.mp3\<close>; whatever track the selection returns, the \<open>ffmpeg\<close> command the task runs
  writes to that path.
\<close>

theorem output_filename_pure:
  assumes "wf_path video_file"
  shows "parent (output_filename video_file) = parent video_file \<and>
    name (output_filename video_file) = stem video_file @ ''.mp3'' \<and>
    (\<forall>run w track_index.
       select_japanese_track (run (ffprobe_cmd video_file)) = Inr track_index \<longrightarrow>
       processes (snd (extract_audio run video_file w)) =
         processes w @
         [ffprobe_cmd video_file,
          ''ffmpeg -i '' @ quoted (str video_file) @ '' -q:a 0 -map '' @ track_index @ '' '' @
          quoted (str (output_filename video_file))])"
  using assms
  by (simp add: output_filename_parent output_filename_name extract_audio_def
      get_japanese_audio_track_def ffmpeg_cmd_def)

theorem output_filename_pure_witness:
  "str (parent (output_filename (Path ''videos/ep1.mkv''))) = ''videos'' \<and>
   name (output_filename (Path ''videos/ep1.mkv'')) = ''ep1.mp3'' \<and>
   str (output_filename (Path ''videos/ep1.mkv'')) = ''videos/ep1.mp3'' \<and>
   processes (snd (extract_audio run_example (Path ''videos/ep1.mkv'') world0)) =
     [ffprobe_cmd (Path ''videos/ep1.mkv''),
      ''ffmpeg -i '' @ quoted ''videos/ep1.mkv'' @ '' -q:a 0 -map 0:2 '' @ quoted ''videos/ep1.mp3'']"
proof -
  have s: "select_japanese_track (run_example (ffprobe_cmd (Path ''videos/ep1.mkv''))) = Inr ''0:2''"
    by code_simp
  have e: "stem (Path ''videos/ep1.mkv'') = ''ep1''" "str (parent (Path ''videos/ep1.mkv'')) = ''videos''"
    "str (Path ''videos/ep1.mkv'') = ''videos/ep1.mkv''"
    "str (output_filename (Path ''videos/ep1.mkv'')) = ''videos/ep1.mp3''"
    "processes world0 = []"
    by code_simp+
  from output_filename_pure [OF wf_path_Path, of "''videos/ep1.mkv''"] s e show ?thesis
    by simp
qed

text \<open>
  C10: two different input paths in the same directory with the same stem and different
  video extensions have the same output path, named by the stem followed by \<open>.mp3\<close>.
\<close>

theorem same_stem_same_output:
  assumes "wf_path p" and "wf_path q"
    and "parent p = parent q" and "stem p = stem q" and "suffix p \<noteq> suffix q"
    and "lower (suffix p) \<in> set VIDEO_EXTS" and "lower (suffix q) \<in> set VIDEO_EXTS"
  shows "p \<noteq> q \<and> output_filename p = output_filename q \<and>
    name (output_filename p) = stem p @ ''.mp3'' \<and> name (output_filename q) = stem p @ ''.mp3''"
proof -
  from assms(5) have "p \<noteq> q"
    by auto
  moreover from assms(3,4) have "output_filename p = output_filename q"
    by (simp add: output_filename_def)
  moreover from assms(1) have "name (output_filename p) = stem p @ ''.mp3''"
    by (rule output_filename_name)
  ultimately show ?thesis
    by simp
qed

theorem same_stem_same_output_witness:
  "Path ''videos/a.mkv'' \<noteq> Path ''videos/a.mp4'' \<and>
   output_filename (Path ''videos/a.mkv'') = output_filename (Path ''videos/a.mp4'') \<and>
   str (output_filename (Path ''videos/a.mkv'')) = ''videos/a.mp3'' \<and>
   str (output_filename (Path ''videos/a.mp4'')) = ''videos/a.mp3''"
proof -
  have h: "parent (Path ''videos/a.mkv'') = parent (Path ''videos/a.mp4'')"
    "stem (Path ''videos/a.mkv'') = stem (Path ''videos/a.mp4'')"
    "suffix (Path ''videos/a.mkv'') \<noteq> suffix (Path ''videos/a.mp4'')"
    "lower (suffix (Path ''videos/a.mkv'')) \<in> set VIDEO_EXTS"
    "lower (suffix (Path ''videos/a.mp4'')) \<in> set VIDEO_EXTS"
    by code_simp+
  have s: "str (output_filename (Path ''videos/a.mkv'')) = ''videos/a.mp3''"
    by code_simp
  from same_stem_same_output [OF wf_path_Path wf_path_Path h] s show ?thesis
    by simp
qed

subsection \<open>Skipping a file\<close>

text \<open>
  C8: when the selection fails with \<open>JapaneseNotFoundException\<close>, the task prints the one
  notice \<open>No Japanese audio track found.\<close>, runs no command but \<open>ffprobe\<close> (so no audio
  file is written), and returns without raising.
\<close>

theorem skip_on_not_found:
  assumes "select_japanese_track (run (ffprobe_cmd video_file)) = Inl JapaneseNotFoundException"
  shows "extract_audio run video_file w =
           (Inr (), w\<lparr>stdout := stdout w @ [''No Japanese audio track found.''],
                      processes := processes w @ [ffprobe_cmd video_file]\<rparr>)"
  using assms by (simp add: extract_audio_def get_japanese_audio_track_def)

theorem skip_on_not_found_witness:
  "select_japanese_track probe_two_eng = Inl JapaneseNotFoundException \<and>
   extract_audio (\<lambda>cmd. probe_two_eng) (Path ''videos/ep2.mkv'') world0 =
     (Inr (), \<lparr>stdout = [''No Japanese audio track found.''],
              processes = [''ffprobe '' @ quoted ''videos/ep2.mkv'']\<rparr>)"
proof -
  have s: "select_japanese_track ((\<lambda>cmd. probe_two_eng) (ffprobe_cmd (Path ''videos/ep2.mkv''))) =
      Inl JapaneseNotFoundException"
    by code_simp
  have c: "ffprobe_cmd (Path ''videos/ep2.mkv'') = ''ffprobe '' @ quoted ''videos/ep2.mkv''"
    by code_simp
  from skip_on_not_found [OF s, where w = world0] s c show ?thesis
    by (simp add: world0_def)
qed

section \<open>Properties of the file filter\<close>

text \<open>
  C7: the filter keeps, in the order \<open>iterdir\<close> lists them, exactly the entries of the
  folder itself that are regular files and whose suffix, after \<open>lower\<close>, is \<open>.mkv\<close> or
  \<open>.mp4\<close>.  Entries of subdirectories are never listed.
\<close>

theorem video_files_filter:
  "video_files fs folder_to_convert =
     filter (\<lambda>v. is_file fs v \<and> (lower (suffix v) = ''.mkv'' \<or> lower (suffix v) = ''.mp4''))
       (iterdir fs folder_to_convert) \<and>
   (video_file \<in> set (video_files fs folder_to_convert) \<longleftrightarrow>
      video_file \<in> set (iterdir fs folder_to_convert) \<and> is_file fs video_file \<and>
      (lower (suffix video_file) = ''.mkv'' \<or> lower (suffix video_file) = ''.mp4''))"
  by (auto simp: video_files_def VIDEO_EXTS_def intro: filter_cong)

theorem video_files_filter_witness:
  "video_files fs_example (Path ''videos'') = [Path ''videos/ep1.MKV'', Path ''videos/ep2.mp4''] \<and>
   Path ''videos/extras.mkv/ep3.mkv'' \<notin> set (video_files fs_example (Path ''videos''))"
proof -
  have "filter (\<lambda>v. is_file fs_example v \<and>
          (lower (suffix v) = ''.mkv'' \<or> lower (suffix v) = ''.mp4''))
        (iterdir fs_example (Path ''videos'')) =
      [Path ''videos/ep1.MKV'', Path ''videos/ep2.mp4'']"
    by code_simp
  with video_files_filter [of fs_example "Path ''videos''"]
  have v: "video_files fs_example (Path ''videos'') = [Path ''videos/ep1.MKV'', Path ''videos/ep2.mp4'']"
    by simp
  have "Path ''videos/extras.mkv/ep3.mkv'' \<notin> set [Path ''videos/ep1.MKV'', Path ''videos/ep2.mp4'']"
    by code_simp
  with v show ?thesis
    by simp
qed

end
